theory Spec2Isabelle
  imports Main "HOL-Library.Word"
begin

section \<open>Strings and bytes of the SEF analyzer\<close>

text \<open>
  The development follows \<open>gui_sef_reader.py\<close>, class \<open>SEFAnalyzer\<close>.
  A Python \<open>str\<close> is a sequence of Unicode code points and \<open>len\<close> counts code points,
  so a text is modelled as a list of code points (natural numbers).  A \<open>bytes\<close> object
  is a list of 8-bit words.
\<close>

type_synonym uchar = nat
type_synonym ustring = "nat list"
type_synonym byte = "8 word"

text \<open>The opening token \<open>{\rtf\<close> of an RTF document: \<open>{\<close>, backslash, \<open>r\<close>, \<open>t\<close>, \<open>f\<close>.\<close>

definition rtf_token :: ustring where
  "rtf_token = [123, 92, 114, 116, 102]"

subsection \<open>String methods\<close>

text \<open>\<open>s.startswith(tok)\<close>.\<close>

definition startswith :: "ustring \<Rightarrow> ustring \<Rightarrow> bool" where
  "startswith s tok \<longleftrightarrow> take (length tok) s = tok"

text \<open>
  \<open>s.find(tok, pos)\<close>: the lowest index \<open>i \<ge> pos\<close> with \<open>s[i:i+len(tok)] == tok\<close>;
  Python's \<open>-1\<close> is \<open>None\<close>.  \<open>find_in tok xs i\<close> scans the rest \<open>xs\<close> of the string, whose
  first character has index \<open>i\<close>.
\<close>

fun find_in :: "ustring \<Rightarrow> ustring \<Rightarrow> nat \<Rightarrow> nat option" where
  "find_in tok [] i = (if tok = [] then Some i else None)"
| "find_in tok (c # cs) i =
     (if startswith (c # cs) tok then Some i else find_in tok cs (Suc i))"

definition str_find :: "ustring \<Rightarrow> ustring \<Rightarrow> nat \<Rightarrow> nat option" where
  "str_find s tok pos = (if length s < pos then None else find_in tok (drop pos s) pos)"

text \<open>The slice \<open>s[i:j]\<close> for indices \<open>0 \<le> i\<close>, \<open>0 \<le> j\<close>.\<close>

definition slice :: "'a list \<Rightarrow> nat \<Rightarrow> nat \<Rightarrow> 'a list" where
  "slice s i j = take (j - i) (drop i s)"

text \<open>
  \<open>str.isspace\<close> on one character; the same table decides \<open>\s\<close> in a \<open>str\<close> pattern of
  the \<open>re\<close> module and what \<open>strip\<close> and \<open>rstrip\<close> remove.
\<close>

definition isspace :: "uchar \<Rightarrow> bool" where
  "isspace c \<longleftrightarrow>
     (9 \<le> c \<and> c \<le> 13) \<or> (28 \<le> c \<and> c \<le> 32) \<or> c = 133 \<or> c = 160 \<or> c = 5760 \<or>
     (8192 \<le> c \<and> c \<le> 8202) \<or> c = 8232 \<or> c = 8233 \<or> c = 8239 \<or> c = 8287 \<or> c = 12288"

text \<open>
  \<open>\d\<close> in a \<open>str\<close> pattern is any Unicode decimal digit (category Nd): the ASCII digits
  and the digits of other scripts.  The table is that of Unicode 14 (CPython 3.11): blocks
  of ten digits starting at the code points below, and the fifty mathematical digits from
  U+1D7CE.
\<close>

definition decimal_blocks :: "nat list" where
  "decimal_blocks =
     [48, 1632, 1776, 1984, 2406, 2534, 2662, 2790, 2918, 3046, 3174, 3302, 3430, 3558,
      3664, 3792, 3872, 4160, 4240, 6112, 6160, 6470, 6608, 6784, 6800, 6992, 7088, 7232,
      7248, 42528, 43216, 43264, 43472, 43504, 43600, 44016, 65296, 66720, 68912, 69734,
      69872, 69942, 70096, 70384, 70736, 70864, 71248, 71360, 71472, 71904, 72016, 72784,
      73040, 73120, 92768, 92864, 93008, 123200, 123632, 125264, 130032]"

definition isdecimal :: "uchar \<Rightarrow> bool" where
  "isdecimal c \<longleftrightarrow>
     list_ex (\<lambda>s. s \<le> c \<and> c < s + 10) decimal_blocks \<or> (120782 \<le> c \<and> c < 120832)"

text \<open>\<open>s.rstrip()\<close>, \<open>s.strip()\<close> and \<open>s.lstrip('\t ')\<close>.\<close>

definition rstrip :: "ustring \<Rightarrow> ustring" where
  "rstrip s = rev (dropWhile isspace (rev s))"

definition strip :: "ustring \<Rightarrow> ustring" where
  "strip s = dropWhile isspace (rstrip s)"

definition lstrip_tab_space :: "ustring \<Rightarrow> ustring" where
  "lstrip_tab_space s = dropWhile (\<lambda>c. c = 9 \<or> c = 32) s"

text \<open>\<open>s.split(d)\<close> for a one-character separator.\<close>

fun split_on :: "uchar \<Rightarrow> ustring \<Rightarrow> ustring list" where
  "split_on d [] = [[]]"
| "split_on d (c # cs) =
     (if c = d then [] # split_on d cs
      else (case split_on d cs of l # ls \<Rightarrow> (c # l) # ls | [] \<Rightarrow> [[c]]))"

text \<open>
  \<open>s.replace(old, new)\<close> for a non-empty \<open>old\<close> (the analyzer replaces \<open>'\r\n'\<close> and
  \<open>'\r'\<close> only): occurrences are replaced left to right without overlap.
\<close>

fun str_replace :: "ustring \<Rightarrow> ustring \<Rightarrow> ustring \<Rightarrow> ustring" where
  "str_replace old new [] = []"
| "str_replace old new (c # cs) =
     (if old \<noteq> [] \<and> startswith (c # cs) old
      then new @ str_replace old new (drop (length old - 1) cs)
      else c # str_replace old new cs)"

subsection \<open>Regular expressions\<close>

text \<open>
  The part of the \<open>re\<close> module the analyzer uses.  A pattern is a term of \<open>regex\<close>:
  one character of a class, concatenation, the greedy star, the negative lookbehind and
  lookahead for a fixed sequence of classes, and \<open>^\<close> and \<open>$\<close> under \<open>re.MULTILINE\<close>.
  \<open>Advanced l\<close> is no pattern of Python's: it succeeds where fewer than \<open>l\<close> characters
  remain, and stands for the engine's check that a repetition or a match has moved on.
\<close>

datatype regex =
    Eps
  | Cls "uchar \<Rightarrow> bool"
  | Seq regex regex
  | Star regex
  | NotBehind "(uchar \<Rightarrow> bool) list"
  | NotAhead "(uchar \<Rightarrow> bool) list"
  | MBol
  | MEol
  | Advanced nat

definition chr :: "uchar \<Rightarrow> regex" where
  "chr c = Cls (\<lambda>x. x = c)"

definition plus :: "regex \<Rightarrow> regex" where
  "plus r = Seq r (Star r)"

fun seqs :: "regex list \<Rightarrow> regex" where
  "seqs [] = Eps"
| "seqs (r # rs) = Seq r (seqs rs)"

definition lit :: "ustring \<Rightarrow> regex" where
  "lit s = seqs (map chr s)"

fun matches_here :: "(uchar \<Rightarrow> bool) list \<Rightarrow> ustring \<Rightarrow> bool" where
  "matches_here [] s = True"
| "matches_here (p # ps) [] = False"
| "matches_here (p # ps) (c # cs) = (p c \<and> matches_here ps cs)"

text \<open>The measure for the termination of the matcher.\<close>

fun weight :: "regex \<Rightarrow> nat" where
  "weight (Seq r1 r2) = weight r1 + weight r2 + 1"
| "weight (Star r) = weight r + 2"
| "weight r = 1"

fun pending :: "regex list \<Rightarrow> nat \<Rightarrow> nat" where
  "pending [] la = 0"
| "pending (Advanced l # k) la = (if l \<le> la then 0 else 1 + pending k la)"
| "pending (r # k) la = weight r + pending k la"

lemma pending_Cons_le: "pending (r # k) la \<le> weight r + pending k la"
  by (cases r) auto

lemma pending_Seq_less:
  "pending (r1 # r2 # k) la < Suc (weight r1 + weight r2 + pending k la)"
  using pending_Cons_le[of r1 "r2 # k" la] pending_Cons_le[of r2 k la] by linarith

lemma pending_Star_less:
  "pending (r # Advanced la # Star r # k) la < Suc (Suc (weight r + pending k la))"
  using pending_Cons_le[of r "Advanced la # Star r # k" la] by simp

text \<open>
  The backtracking matcher.  \<open>rmatch k b a\<close> matches the patterns of the list \<open>k\<close> one
  after the other at the position with the characters \<open>b\<close> before it (the nearest first)
  and the characters \<open>a\<close> after it.  It returns the position after the first match in
  backtracking order: a star takes one more repetition before it tries the rest, and a
  repetition that consumed nothing is not repeated.
\<close>

function (sequential) rmatch ::
  "regex list \<Rightarrow> ustring \<Rightarrow> ustring \<Rightarrow> (ustring \<times> ustring) option" where
  "rmatch [] b a = Some (b, a)"
| "rmatch (Eps # k) b a = rmatch k b a"
| "rmatch (Cls p # k) b [] = None"
| "rmatch (Cls p # k) b (c # cs) = (if p c then rmatch k (c # b) cs else None)"
| "rmatch (Seq r1 r2 # k) b a = rmatch (r1 # r2 # k) b a"
| "rmatch (Star r # k) b a =
     (case rmatch (r # Advanced (length a) # Star r # k) b a of
        Some res \<Rightarrow> Some res
      | None \<Rightarrow> rmatch k b a)"
| "rmatch (NotBehind ps # k) b a = (if matches_here (rev ps) b then None else rmatch k b a)"
| "rmatch (NotAhead ps # k) b a = (if matches_here ps a then None else rmatch k b a)"
| "rmatch (MBol # k) b a = (if b = [] \<or> hd b = 10 then rmatch k b a else None)"
| "rmatch (MEol # k) b a = (if a = [] \<or> hd a = 10 then rmatch k b a else None)"
| "rmatch (Advanced l # k) b a = (if length a < l then rmatch k b a else None)"
  by pat_completeness auto
termination
  by (relation "measures [\<lambda>(k, b, a). length a, \<lambda>(k, b, a). pending k (length a)]")
     (auto simp: pending_Seq_less pending_Star_less)

text \<open>
  \<open>re.sub(rx, repl, s)\<close>, with \<open>repl\<close> a function of the matched text.  The string is
  scanned from the left; a match is replaced and the scan goes on behind it; where the
  pattern does not match, the character is kept.  After an empty match the next match
  has to end further right (\<open>must_advance\<close>).
\<close>

function re_sub_loop ::
  "regex \<Rightarrow> (ustring \<Rightarrow> ustring) \<Rightarrow> bool \<Rightarrow> ustring \<Rightarrow> ustring \<Rightarrow> ustring" where
  "re_sub_loop rx repl must_advance b a =
     (case rmatch (if must_advance then [rx, Advanced (length a)] else [rx]) b a of
        Some (b', a') \<Rightarrow>
          (if length a' < length a
           then repl (take (length a - length a') a) @ re_sub_loop rx repl False b' a'
           else if must_advance
           then (case a of [] \<Rightarrow> [] | c # cs \<Rightarrow> c # re_sub_loop rx repl False (c # b) cs)
           else repl [] @ re_sub_loop rx repl True b a)
      | None \<Rightarrow>
          (case a of [] \<Rightarrow> [] | c # cs \<Rightarrow> c # re_sub_loop rx repl False (c # b) cs))"
  by pat_completeness auto
termination
  by (relation "measures [\<lambda>(rx, repl, ma, b, a). length a,
                          \<lambda>(rx, repl, ma, b, a). if ma then 0 else 1]") auto

declare re_sub_loop.simps [simp del]

definition re_sub :: "regex \<Rightarrow> (ustring \<Rightarrow> ustring) \<Rightarrow> ustring \<Rightarrow> ustring" where
  "re_sub rx repl s = re_sub_loop rx repl False [] s"

section \<open>The analyzer\<close>

subsection \<open>The entries of the outline\<close>

text \<open>An entry of the hierarchy list is a dictionary with the keys \<open>title\<close> and \<open>level\<close>.\<close>

record hierarchy_item =
  title :: ustring
  level :: nat

subsection \<open>Locating the payload and decoding the text\<close>

text \<open>\<open>_find_zlib_start\<close>: the first index \<open>i\<close> with \<open>data[i] == 0x78\<close> and \<open>data[i+1] == 0x01\<close>.\<close>

fun find_zlib_from :: "byte list \<Rightarrow> nat \<Rightarrow> nat option" where
  "find_zlib_from (x # y # bs) i =
     (if x = 0x78 \<and> y = 0x01 then Some i else find_zlib_from (y # bs) (Suc i))"
| "find_zlib_from bs i = None"

definition find_zlib_start :: "byte list \<Rightarrow> nat option" where
  "find_zlib_start data = find_zlib_from data 0"

text \<open>
  \<open>_decode_text\<close>.  The parameter \<open>codec\<close> stands for
  \<open>bytes.decode('shift-jis', errors='ignore')\<close>, whose tables are not part of the program.
  With \<open>errors='ignore'\<close> the codec raises nothing, so the handlers of the source are
  not reached.
\<close>

fun decode_text :: "(byte list \<Rightarrow> ustring) \<Rightarrow> byte list \<Rightarrow> ustring" where
  "decode_text codec [] = []"
| "decode_text codec [x] = (if x = 0 then [] else codec [x])"
| "decode_text codec (x # y # bs) =
     (if x = 0 then decode_text codec (y # bs)
      else if 0x81 \<le> x then codec [x, y] @ decode_text codec bs
      else codec [x] @ decode_text codec (y # bs))"

subsection \<open>Separating the outline from the RTF part\<close>

text \<open>\<open>_split_plain_rtf\<close>.\<close>

definition split_plain_rtf :: "ustring \<Rightarrow> ustring \<times> ustring" where
  "split_plain_rtf text =
     (case str_find text rtf_token 0 of
        None \<Rightarrow> (text, [])
      | Some rtf_start \<Rightarrow> (take rtf_start text, drop rtf_start text))"

subsection \<open>The outline\<close>

text \<open>
  The loop of \<open>_parse_hierarchy\<close> over the characters of a line, with the variables
  \<open>level\<close> (here \<open>lvl\<close>) and \<open>space_count\<close> (\<open>tab_count\<close> is counted and never read).
\<close>

fun indent_level :: "ustring \<Rightarrow> nat \<Rightarrow> nat \<Rightarrow> nat" where
  "indent_level [] lvl space_count = lvl"
| "indent_level (c # cs) lvl space_count =
     (if c = 9 then indent_level cs (lvl + 1) space_count
      else if c = 32
      then indent_level cs (if (space_count + 1) mod 4 = 0 then lvl + 1 else lvl)
             (space_count + 1)
      else lvl)"

fun parse_lines :: "ustring list \<Rightarrow> hierarchy_item list" where
  "parse_lines [] = []"
| "parse_lines (l # ls) =
     (let line = rstrip l in
      if line = [] then parse_lines ls
      else
        let lvl = indent_level line 0 0;
            clean_line = lstrip_tab_space line
        in if clean_line \<noteq> []
           then \<lparr>hierarchy_item.title = clean_line, level = lvl\<rparr> # parse_lines ls
           else parse_lines ls)"

definition parse_hierarchy :: "ustring \<Rightarrow> hierarchy_item list" where
  "parse_hierarchy plain_part = parse_lines (split_on 10 plain_part)"

subsection \<open>From RTF to plain text\<close>

definition hexdigit :: "uchar \<Rightarrow> bool" where
  "hexdigit c \<longleftrightarrow> (48 \<le> c \<and> c \<le> 57) \<or> (97 \<le> c \<and> c \<le> 102) \<or> (65 \<le> c \<and> c \<le> 70)"

definition alpha :: "uchar \<Rightarrow> bool" where
  "alpha c \<longleftrightarrow> (97 \<le> c \<and> c \<le> 122) \<or> (65 \<le> c \<and> c \<le> 90)"

definition digit09 :: "uchar \<Rightarrow> bool" where
  "digit09 c \<longleftrightarrow> 48 \<le> c \<and> c \<le> 57"

definition not_brace :: "uchar \<Rightarrow> bool" where
  "not_brace c \<longleftrightarrow> c \<noteq> 123 \<and> c \<noteq> 125"

text \<open>The date units U+5E74 (year), U+6708 (month) and U+65E5 (day).\<close>

definition date_unit :: "uchar \<Rightarrow> bool" where
  "date_unit c \<longleftrightarrow> c = 24180 \<or> c = 26376 \<or> c = 26085"

text \<open>
  \<open>decode_sjis_hex_sequence\<close>: the match is a run of units backslash, quote and two
  hexadecimal digits; \<open>re.findall\<close> lists the digit pairs, \<open>int(h, 16)\<close> makes each a byte.
\<close>

definition hexval :: "uchar \<Rightarrow> nat" where
  "hexval c = (if c \<le> 57 then c - 48 else if 97 \<le> c then c - 87 else c - 55)"

fun hex_bytes :: "ustring \<Rightarrow> byte list" where
  "hex_bytes (bs # q # h1 # h2 # rest) = of_nat (16 * hexval h1 + hexval h2) # hex_bytes rest"
| "hex_bytes rest = []"

definition decode_sjis_hex_sequence :: "(byte list \<Rightarrow> ustring) \<Rightarrow> ustring \<Rightarrow> ustring" where
  "decode_sjis_hex_sequence codec hex_sequence = codec (hex_bytes hex_sequence)"

text \<open>The patterns of \<open>_rtf_to_plain_text\<close>, in the order of their use.\<close>

definition pat_hex :: regex where
  \<comment> \<open>\<^verbatim>\<open>(?:\\'[0-9a-fA-F]{2})+\<close>\<close>
  "pat_hex = plus (seqs [chr 92, chr 39, Cls hexdigit, Cls hexdigit])"

definition pat_table :: "ustring \<Rightarrow> regex" where
  \<comment> \<open>\<^verbatim>\<open>\{\\fonttbl[^{}]*(?:\{[^{}]*\}[^{}]*)*\}\<close>, and the same with \<open>colortbl\<close>\<close>
  "pat_table name =
     seqs [chr 123, chr 92, lit name, Star (Cls not_brace),
           Star (seqs [chr 123, Star (Cls not_brace), chr 125, Star (Cls not_brace)]),
           chr 125]"

definition fonttbl :: ustring where
  "fonttbl = [102, 111, 110, 116, 116, 98, 108]"

definition colortbl :: ustring where
  "colortbl = [99, 111, 108, 111, 114, 116, 98, 108]"

definition pat_numbered :: regex where
  \<comment> \<open>\<^verbatim>\<open>\\[a-zA-Z]+\d+(?:\s+\\[a-zA-Z]+\d+)*\<close>\<close>
  "pat_numbered =
     seqs [chr 92, plus (Cls alpha), plus (Cls isdecimal),
           Star (seqs [plus (Cls isspace), chr 92, plus (Cls alpha), plus (Cls isdecimal)])]"

definition pat_word :: regex where
  \<comment> \<open>\<^verbatim>\<open>\\[a-zA-Z]+\<close>\<close>
  "pat_word = seqs [chr 92, plus (Cls alpha)]"

definition pat_escape :: regex where
  \<comment> \<open>\<^verbatim>\<open>\\[^a-zA-Z]\<close>\<close>
  "pat_escape = seqs [chr 92, Cls (\<lambda>c. \<not> alpha c)]"

definition pat_brace :: regex where
  \<comment> \<open>\<^verbatim>\<open>[{}]\<close>\<close>
  "pat_brace = Cls (\<lambda>c. c = 123 \<or> c = 125)"

definition pat_semicolons :: regex where
  \<comment> \<open>\<^verbatim>\<open>;+\<close>\<close>
  "pat_semicolons = plus (chr 59)"

definition date_pattern_marker :: ustring where
  \<comment> \<open>\<^verbatim>\<open>__DATE_PATTERN_\<close>\<close>
  "date_pattern_marker = [95, 95, 68, 65, 84, 69, 95, 80, 65, 84, 84, 69, 82, 78, 95]"

definition pat_numbers :: regex where
  \<comment> \<open>\<^verbatim>\<open>(?<!__DATE_PATTERN_)(?<![...])[0-9]+(?![...])(?!__)(?:\s+[0-9]+)*\s*\<close>,
      the two classes holding the three date units\<close>
  "pat_numbers =
     seqs [NotBehind (map (\<lambda>c x. x = c) date_pattern_marker), NotBehind [date_unit],
           plus (Cls digit09), NotAhead [date_unit], NotAhead [\<lambda>x. x = 95, \<lambda>x. x = 95],
           Star (seqs [plus (Cls isspace), plus (Cls digit09)]), Star (Cls isspace)]"

definition pat_blanks :: regex where
  \<comment> \<open>\<^verbatim>\<open>[ \t]+\<close>\<close>
  "pat_blanks = plus (Cls (\<lambda>c. c = 32 \<or> c = 9))"

definition pat_line_start :: regex where
  \<comment> \<open>\<^verbatim>\<open>^\s+\<close> with \<open>re.MULTILINE\<close>\<close>
  "pat_line_start = seqs [MBol, plus (Cls isspace)]"

definition pat_line_end :: regex where
  \<comment> \<open>\<^verbatim>\<open>\s+$\<close> with \<open>re.MULTILINE\<close>\<close>
  "pat_line_end = seqs [plus (Cls isspace), MEol]"

definition pat_blank_lines :: regex where
  \<comment> \<open>\<^verbatim>\<open>\n\s*\n\s*\n+\<close>\<close>
  "pat_blank_lines = seqs [chr 10, Star (Cls isspace), chr 10, Star (Cls isspace), plus (chr 10)]"

text \<open>The numbered steps of \<open>_rtf_to_plain_text\<close>.\<close>

definition step1 :: "(byte list \<Rightarrow> ustring) \<Rightarrow> ustring \<Rightarrow> ustring" where
  "step1 codec text = re_sub pat_hex (decode_sjis_hex_sequence codec) text"

definition step2 :: "ustring \<Rightarrow> ustring" where
  "step2 text = re_sub (pat_table colortbl) (\<lambda>m. []) (re_sub (pat_table fonttbl) (\<lambda>m. []) text)"

definition step3 :: "ustring \<Rightarrow> ustring" where
  "step3 text =
     re_sub pat_escape (\<lambda>m. []) (re_sub pat_word (\<lambda>m. [32]) (re_sub pat_numbered (\<lambda>m. [32]) text))"

definition step4 :: "ustring \<Rightarrow> ustring" where
  "step4 text = re_sub pat_brace (\<lambda>m. []) text"

definition remove_numbers :: "ustring \<Rightarrow> ustring" where
  "remove_numbers text = re_sub pat_numbers (\<lambda>m. [32]) text"

definition step5 :: "ustring \<Rightarrow> ustring" where
  "step5 text = remove_numbers (re_sub pat_semicolons (\<lambda>m. [32]) text)"

definition step6 :: "ustring \<Rightarrow> ustring" where
  "step6 text =
     re_sub pat_blank_lines (\<lambda>m. [10, 10])
       (re_sub pat_line_end (\<lambda>m. [])
         (re_sub pat_line_start (\<lambda>m. [])
           (re_sub pat_blanks (\<lambda>m. [32])
             (str_replace [13] [10] (str_replace [13, 10] [10] text)))))"

definition rtf_to_plain_text :: "(byte list \<Rightarrow> ustring) \<Rightarrow> ustring \<Rightarrow> ustring" where
  "rtf_to_plain_text codec rtf_content =
     (if rtf_content = [] then []
      else strip (step6 (step5 (step4 (step3 (step2 (step1 codec rtf_content)))))))"

subsection \<open>Extracting the RTF documents\<close>

text \<open>
  The loop of \<open>_extract_complete_rtf\<close>: \<open>brace_scan cs brace_count pos\<close> runs over the
  characters \<open>cs\<close> from index \<open>pos\<close> on and returns the index of the closing brace that
  brings the count to zero, or \<open>None\<close> when the text ends before.
\<close>

fun brace_scan :: "ustring \<Rightarrow> int \<Rightarrow> nat \<Rightarrow> nat option" where
  "brace_scan [] brace_count pos = None"
| "brace_scan (c # cs) brace_count pos =
     (if c = 123 then brace_scan cs (brace_count + 1) (pos + 1)
      else if c = 125
      then (if brace_count - 1 = 0 then Some pos
            else brace_scan cs (brace_count - 1) (pos + 1))
      else brace_scan cs brace_count (pos + 1))"

definition extract_complete_rtf :: "ustring \<Rightarrow> nat \<Rightarrow> ustring" where
  "extract_complete_rtf rtf_data start_pos =
     (if length rtf_data \<le> start_pos then []
      else if \<not> startswith (drop start_pos rtf_data) rtf_token then []
      else (case brace_scan (drop start_pos rtf_data) 0 start_pos of
              Some pos \<Rightarrow> slice rtf_data start_pos (pos + 1)
            | None \<Rightarrow> drop start_pos rtf_data))"

lemma find_in_bounds: "find_in tok xs i = Some p \<Longrightarrow> i \<le> p \<and> p \<le> i + length xs"
  by (induction xs arbitrary: i) (fastforce split: if_splits)+

lemma str_find_bounds: "str_find s tok pos = Some p \<Longrightarrow> pos \<le> p \<and> p \<le> length s"
  using find_in_bounds[of tok "drop pos s" pos p]
  by (auto simp: str_find_def split: if_splits)

text \<open>
  The first loop of \<open>_complete_hierarchy_split_chapters\<close>: the start offsets of the
  RTF documents, each search starting one character behind the last find.
\<close>

function find_rtf_starts :: "ustring \<Rightarrow> nat \<Rightarrow> nat list" where
  "find_rtf_starts rtf_data pos =
     (case str_find rtf_data rtf_token pos of
        None \<Rightarrow> []
      | Some rtf_pos \<Rightarrow> rtf_pos # find_rtf_starts rtf_data (rtf_pos + 1))"
  by pat_completeness auto
termination
  by (relation "measure (\<lambda>(rtf_data, pos). Suc (length rtf_data) - pos)")
     (auto dest: str_find_bounds)

declare find_rtf_starts.simps [simp del]

subsection \<open>Documents, chapters and results\<close>

text \<open>
  An extracted RTF document is a dictionary.  A chapter is a dictionary with the keys
  \<open>title\<close>, \<open>content\<close>, \<open>start_pos\<close>, \<open>end_pos\<close> and \<open>size\<close>; the keys \<open>level\<close> and
  \<open>rtf_index\<close> are present in some chapters only, and an absent key is \<open>None\<close>.
\<close>

record rtf_document =
  rtf_index :: int
  start_pos :: nat
  end_pos :: nat
  rtf_content :: ustring
  plain_content :: ustring
  size' :: nat

record chapter_item =
  title :: ustring
  content :: ustring
  level :: "nat option"
  start_pos :: nat
  end_pos :: nat
  size' :: nat
  rtf_index :: "int option"

text \<open>
  The exceptions raised inside \<open>analyze_file\<close>: the three \<open>ValueError\<close>s of the header
  and payload checks, the error of \<open>zlib.decompress\<close>, and the division by zero of
  the equal split.  \<open>analyze_file\<close> catches every exception and returns a dictionary with
  \<open>success\<close> false and the message; otherwise one with \<open>success\<close> true, the chapters,
  the hierarchy and the file size.
\<close>

datatype error =
    TooSmall
  | BadMagic nat
  | PayloadNotFound
  | DecompressionFailure
  | ZeroDivisionError

record analysis =
  chapters :: "chapter_item list"
  hierarchy :: "hierarchy_item list"
  file_size :: nat

datatype result = Failure error | Success analysis

text \<open>The second loop: every document is extracted and converted.\<close>

definition make_document ::
  "(byte list \<Rightarrow> ustring) \<Rightarrow> ustring \<Rightarrow> nat \<Rightarrow> nat \<Rightarrow> rtf_document" where
  "make_document codec rtf_data i start =
     (let content_rtf = extract_complete_rtf rtf_data start;
          content_plain = rtf_to_plain_text codec content_rtf
      in \<lparr>rtf_document.rtf_index = int i,
          start_pos = start,
          end_pos = start + length content_rtf,
          rtf_content = content_rtf,
          plain_content = content_plain,
          size' = length content_plain\<rparr>)"

definition rtf_documents :: "(byte list \<Rightarrow> ustring) \<Rightarrow> ustring \<Rightarrow> rtf_document list" where
  "rtf_documents codec rtf_data =
     map (\<lambda>(i, start). make_document codec rtf_data i start)
         (enumerate 0 (find_rtf_starts rtf_data 0))"

subsection \<open>Assembling the chapters\<close>

text \<open>The message of a chapter without a document: \<open>no_content_message\<close>, seventeen characters.\<close>

definition no_content_message :: ustring where
  "no_content_message =
     [65288, 23550, 24540, 12377, 12427, 12467, 12531, 12486, 12531, 12484, 12364, 12354,
      12426, 12414, 12379, 12435, 65289]"

text \<open>The title of the single chapter of a file without outline.\<close>

definition main_text_title :: ustring where
  "main_text_title = [12513, 12452, 12531, 12486, 12461, 12473, 12488]"

text \<open>The third loop: hierarchy item \<open>i\<close> is paired with document \<open>i\<close>.\<close>

definition pair_chapter :: "rtf_document list \<Rightarrow> nat \<Rightarrow> hierarchy_item \<Rightarrow> chapter_item" where
  "pair_chapter docs i item =
     (if i < length docs
      then (let doc = docs ! i
            in \<lparr>chapter_item.title = hierarchy_item.title item,
                content = plain_content doc,
                level = Some (hierarchy_item.level item),
                start_pos = rtf_document.start_pos doc,
                end_pos = rtf_document.end_pos doc,
                size' = length (plain_content doc),
                rtf_index = Some (rtf_document.rtf_index doc)\<rparr>)
      else \<lparr>chapter_item.title = hierarchy_item.title item,
            content = no_content_message,
            level = Some (hierarchy_item.level item),
            start_pos = 0,
            end_pos = 0,
            size' = 0,
            rtf_index = Some (- 1)\<rparr>)"

definition pair_chapters :: "rtf_document list \<Rightarrow> hierarchy_item list \<Rightarrow> chapter_item list" where
  "pair_chapters docs items = map (\<lambda>(i, item). pair_chapter docs i item) (enumerate 0 items)"

text \<open>\<open>str(n)\<close> for the generated title of \<open>_fallback_equal_split\<close>.\<close>

fun str_of_nat :: "nat \<Rightarrow> ustring" where
  "str_of_nat n = (if n < 10 then [48 + n] else str_of_nat (n div 10) @ [48 + n mod 10])"

text \<open>
  \<open>_fallback_equal_split\<close>.  The integer division by the number of chapters raises
  \<open>ZeroDivisionError\<close> for an empty list.
\<close>

definition fallback_chapter ::
  "(byte list \<Rightarrow> ustring) \<Rightarrow> ustring \<Rightarrow> hierarchy_item list \<Rightarrow> nat \<Rightarrow> nat \<Rightarrow> chapter_item" where
  "fallback_chapter codec rtf_data chapter_items rtf_chunk_size i =
     (let rtf_len = length rtf_data;
          chapter_count = length chapter_items;
          rtf_start = i * rtf_chunk_size;
          rtf_end = (if i < chapter_count - 1 then (i + 1) * rtf_chunk_size else rtf_len);
          chunk_plain = rtf_to_plain_text codec (slice rtf_data rtf_start rtf_end)
      in \<lparr>chapter_item.title =
            (if i < length chapter_items then hierarchy_item.title (chapter_items ! i)
             else 31456 # str_of_nat (i + 1)),
          content = chunk_plain,
          level = None,
          start_pos = rtf_start,
          end_pos = rtf_end,
          size' = length chunk_plain,
          rtf_index = None\<rparr>)"

definition fallback_equal_split ::
  "(byte list \<Rightarrow> ustring) \<Rightarrow> ustring \<Rightarrow> ustring \<Rightarrow> hierarchy_item list \<Rightarrow> error + chapter_item list" where
  "fallback_equal_split codec rtf_data plain_text chapter_items =
     (let chapter_count = length chapter_items
      in if chapter_count = 0 then Inl ZeroDivisionError
         else Inr (map (fallback_chapter codec rtf_data chapter_items
                          (length rtf_data div chapter_count))
                       [0 ..< chapter_count]))"

text \<open>\<open>_complete_hierarchy_split_chapters\<close>.\<close>

definition complete_hierarchy_split_chapters ::
  "(byte list \<Rightarrow> ustring) \<Rightarrow> ustring \<Rightarrow> ustring \<Rightarrow> hierarchy_item list \<Rightarrow> error + chapter_item list" where
  "complete_hierarchy_split_chapters codec rtf_data plain_text items =
     (let paired = pair_chapters (rtf_documents codec rtf_data) items
      in if paired = [] then fallback_equal_split codec rtf_data plain_text items
         else Inr paired)"

text \<open>\<open>_split_chapters\<close>.\<close>

definition split_chapters ::
  "(byte list \<Rightarrow> ustring) \<Rightarrow> ustring \<Rightarrow> hierarchy_item list \<Rightarrow> error + chapter_item list" where
  "split_chapters codec rtf_data items =
     (if items = []
      then (let plain = rtf_to_plain_text codec rtf_data
            in Inr [\<lparr>chapter_item.title = main_text_title,
                     content = plain,
                     level = Some 0,
                     start_pos = 0,
                     end_pos = length rtf_data,
                     size' = length plain,
                     rtf_index = None\<rparr>])
      else complete_hierarchy_split_chapters codec rtf_data [] items)"

subsection \<open>The analysis of a file\<close>

text \<open>
  \<open>analyze_file\<close>, from the bytes read from the file.  The parameter \<open>inflate\<close> stands
  for \<open>zlib.decompress\<close>, with \<open>None\<close> for its exception; \<open>codec\<close> is the decoder of
  \<open>decode_text\<close>.  The magic number is \<open>struct.unpack('<H', data[0:2])\<close>.  The four header
  fields are unpacked and printed only; for sixteen bytes and more none of these reads
  fails.
\<close>

definition magic_of :: "byte list \<Rightarrow> nat" where
  "magic_of data = unat (data ! 0) + 256 * unat (data ! 1)"

definition analyze_file ::
  "(byte list \<Rightarrow> byte list option) \<Rightarrow> (byte list \<Rightarrow> ustring) \<Rightarrow> byte list \<Rightarrow> result" where
  "analyze_file inflate codec data =
     (if length data < 16 then Failure TooSmall
      else if magic_of data \<noteq> 0x0303 then Failure (BadMagic (magic_of data))
      else (case find_zlib_start data of
              None \<Rightarrow> Failure PayloadNotFound
            | Some zlib_start \<Rightarrow>
                (case inflate (drop zlib_start data) of
                   None \<Rightarrow> Failure DecompressionFailure
                 | Some decompressed \<Rightarrow>
                     (let text_content = decode_text codec decompressed;
                          (plain_part, rtf_part) = split_plain_rtf text_content;
                          items = parse_hierarchy plain_part
                      in case split_chapters codec rtf_part items of
                           Inl e \<Rightarrow> Failure e
                         | Inr chs \<Rightarrow>
                             Success \<lparr>chapters = chs, hierarchy = items,
                                      file_size = length data\<rparr>))))"

section \<open>Specification notions\<close>

text \<open>The token occurs in \<open>s\<close> at index \<open>i\<close>.\<close>

definition occurs_at :: "ustring \<Rightarrow> ustring \<Rightarrow> nat \<Rightarrow> bool" where
  "occurs_at tok s i \<longleftrightarrow> i + length tok \<le> length s \<and> startswith (drop i s) tok"

text \<open>The brace count of a text: \<open>+1\<close> for each \<open>{\<close>, \<open>-1\<close> for each \<open>}\<close>.\<close>

fun balance :: "ustring \<Rightarrow> int" where
  "balance [] = 0"
| "balance (c # cs) = (if c = 123 then 1 else if c = 125 then - 1 else 0) + balance cs"

text \<open>
  The running brace count, counted from \<open>start\<close>, is zero after the character at index \<open>p\<close>.
\<close>

definition returns_to_zero :: "ustring \<Rightarrow> nat \<Rightarrow> nat \<Rightarrow> bool" where
  "returns_to_zero s start p \<longleftrightarrow>
     start \<le> p \<and> p < length s \<and> balance (slice s start (p + 1)) = 0"

section \<open>Facts about searching\<close>

lemma find_in_Some_iff:
  "find_in tok xs i = Some p \<longleftrightarrow>
     i \<le> p \<and> occurs_at tok xs (p - i) \<and> (\<forall>j < p - i. \<not> occurs_at tok xs j)"
proof (induction xs arbitrary: i)
  case Nil
  then show ?case by (auto simp: occurs_at_def startswith_def)
next
  case (Cons c cs)
  show ?case
  proof (cases "startswith (c # cs) tok")
    case True
    then have occ0: "occurs_at tok (c # cs) 0"
      by (metis add_0 drop0 length_take min_def nat_le_linear occurs_at_def startswith_def)
    show ?thesis
    proof
      assume "find_in tok (c # cs) i = Some p"
      with True have "p = i" by simp
      with occ0 show "i \<le> p \<and> occurs_at tok (c # cs) (p - i) \<and> (\<forall>j < p - i. \<not> occurs_at tok (c # cs) j)"
        by simp
    next
      assume a: "i \<le> p \<and> occurs_at tok (c # cs) (p - i) \<and> (\<forall>j < p - i. \<not> occurs_at tok (c # cs) j)"
      with occ0 have "p - i = 0" by (metis not_gr_zero)
      with a True show "find_in tok (c # cs) i = Some p" by simp
    qed
  next
    case False
    then have nocc0: "\<not> occurs_at tok (c # cs) 0" by (simp add: occurs_at_def)
    have shift: "occurs_at tok (c # cs) (Suc k) \<longleftrightarrow> occurs_at tok cs k" for k
      by (simp add: occurs_at_def)
    have "find_in tok (c # cs) i = Some p \<longleftrightarrow> find_in tok cs (Suc i) = Some p"
      using False by simp
    also have "\<dots> \<longleftrightarrow> Suc i \<le> p \<and> occurs_at tok cs (p - Suc i) \<and> (\<forall>j < p - Suc i. \<not> occurs_at tok cs j)"
      by (rule Cons.IH)
    also have "\<dots> \<longleftrightarrow> i \<le> p \<and> occurs_at tok (c # cs) (p - i) \<and> (\<forall>j < p - i. \<not> occurs_at tok (c # cs) j)"
    proof
      assume a: "Suc i \<le> p \<and> occurs_at tok cs (p - Suc i) \<and> (\<forall>j < p - Suc i. \<not> occurs_at tok cs j)"
      then have e: "p - i = Suc (p - Suc i)" by arith
      have "\<not> occurs_at tok (c # cs) j" if "j < p - i" for j
      proof (cases j)
        case 0
        with nocc0 show ?thesis by simp
      next
        case (Suc k)
        with that e a show ?thesis by (simp add: shift)
      qed
      with a e show "i \<le> p \<and> occurs_at tok (c # cs) (p - i) \<and> (\<forall>j < p - i. \<not> occurs_at tok (c # cs) j)"
        by (simp add: shift)
    next
      assume a: "i \<le> p \<and> occurs_at tok (c # cs) (p - i) \<and> (\<forall>j < p - i. \<not> occurs_at tok (c # cs) j)"
      with nocc0 have "p - i \<noteq> 0" by metis
      then obtain k where k: "p - i = Suc k" by (cases "p - i") auto
      then have k': "k = p - Suc i" by arith
      have "\<not> occurs_at tok cs j" if "j < k" for j
        using a k that shift[of j] by auto
      with a k k' show "Suc i \<le> p \<and> occurs_at tok cs (p - Suc i) \<and> (\<forall>j < p - Suc i. \<not> occurs_at tok cs j)"
        using shift[of k] by auto
    qed
    finally show ?thesis .
  qed
qed

lemma find_in_None_iff:
  "find_in tok xs i = None \<longleftrightarrow> (\<forall>j. \<not> occurs_at tok xs j)"
proof (induction xs arbitrary: i)
  case Nil
  then show ?case by (auto simp: occurs_at_def startswith_def)
next
  case (Cons c cs)
  have shift: "occurs_at tok (c # cs) (Suc k) \<longleftrightarrow> occurs_at tok cs k" for k
    by (simp add: occurs_at_def)
  show ?case
  proof (cases "startswith (c # cs) tok")
    case True
    then have "occurs_at tok (c # cs) 0"
      by (metis add_0 drop0 length_take min_def nat_le_linear occurs_at_def startswith_def)
    with True show ?thesis by auto
  next
    case False
    then have nocc0: "\<not> occurs_at tok (c # cs) 0" by (simp add: occurs_at_def)
    have "(\<forall>j. \<not> occurs_at tok (c # cs) j) \<longleftrightarrow> (\<forall>j. \<not> occurs_at tok cs j)"
    proof
      assume "\<forall>j. \<not> occurs_at tok (c # cs) j"
      then show "\<forall>j. \<not> occurs_at tok cs j" using shift by blast
    next
      assume a: "\<forall>j. \<not> occurs_at tok cs j"
      show "\<forall>j. \<not> occurs_at tok (c # cs) j"
      proof
        fix j show "\<not> occurs_at tok (c # cs) j"
          using a nocc0 shift by (cases j) auto
      qed
    qed
    with False Cons.IH[of "Suc i"] show ?thesis by simp
  qed
qed

lemma occurs_at_drop:
  "pos \<le> length s \<Longrightarrow> occurs_at tok (drop pos s) j \<longleftrightarrow> occurs_at tok s (pos + j)"
  by (auto simp: occurs_at_def add.commute)

lemma str_find_Some_iff:
  "str_find s tok pos = Some p \<longleftrightarrow>
     pos \<le> p \<and> occurs_at tok s p \<and> (\<forall>j. pos \<le> j \<and> j < p \<longrightarrow> \<not> occurs_at tok s j)"
proof (cases "length s < pos")
  case True
  then show ?thesis by (auto simp: str_find_def occurs_at_def)
next
  case False
  then have le: "pos \<le> length s" by simp
  have "(\<forall>j < p - pos. \<not> occurs_at tok s (pos + j)) \<longleftrightarrow>
        (\<forall>j. pos \<le> j \<and> j < p \<longrightarrow> \<not> occurs_at tok s j)" if "pos \<le> p"
  proof
    assume a: "\<forall>j < p - pos. \<not> occurs_at tok s (pos + j)"
    show "\<forall>j. pos \<le> j \<and> j < p \<longrightarrow> \<not> occurs_at tok s j"
    proof (intro allI impI)
      fix j assume "pos \<le> j \<and> j < p"
      then have "j - pos < p - pos" "pos + (j - pos) = j" by arith+
      with a show "\<not> occurs_at tok s j" by metis
    qed
  next
    assume a: "\<forall>j. pos \<le> j \<and> j < p \<longrightarrow> \<not> occurs_at tok s j"
    show "\<forall>j < p - pos. \<not> occurs_at tok s (pos + j)"
      using a by auto
  qed
  with le show ?thesis
    by (auto simp: str_find_def find_in_Some_iff occurs_at_drop)
qed

lemma str_find_None_iff:
  "str_find s tok pos = None \<longleftrightarrow> (\<forall>j \<ge> pos. \<not> occurs_at tok s j)"
proof (cases "length s < pos")
  case True
  then show ?thesis by (auto simp: str_find_def occurs_at_def)
next
  case False
  then have le: "pos \<le> length s" by simp
  have "(\<forall>j. \<not> occurs_at tok s (pos + j)) \<longleftrightarrow> (\<forall>j \<ge> pos. \<not> occurs_at tok s j)"
    by (metis le_add1 le_add_diff_inverse)
  with le show ?thesis
    by (simp add: str_find_def find_in_None_iff occurs_at_drop)
qed

section \<open>Chapter assembly\<close>

lemma length_pair_chapters: "length (pair_chapters docs items) = length items"
  by (simp add: pair_chapters_def)

lemma nth_pair_chapters:
  "i < length items \<Longrightarrow> pair_chapters docs items ! i = pair_chapter docs i (items ! i)"
  by (simp add: pair_chapters_def nth_enumerate_eq)

lemma pair_chapters_Nil_iff: "pair_chapters docs items = [] \<longleftrightarrow> items = []"
  by (metis length_pair_chapters length_0_conv)

lemma complete_hierarchy_split_chapters_paired:
  "items \<noteq> [] \<Longrightarrow>
   complete_hierarchy_split_chapters codec rtf_data plain_text items =
     Inr (pair_chapters (rtf_documents codec rtf_data) items)"
  by (simp add: complete_hierarchy_split_chapters_def Let_def pair_chapters_Nil_iff)

lemma split_chapters_paired:
  "items \<noteq> [] \<Longrightarrow>
   split_chapters codec rtf_data items = Inr (pair_chapters (rtf_documents codec rtf_data) items)"
  by (simp add: split_chapters_def complete_hierarchy_split_chapters_paired)

lemma length_rtf_documents:
  "length (rtf_documents codec rtf_data) = length (find_rtf_starts rtf_data 0)"
  by (simp add: rtf_documents_def)

lemma nth_rtf_documents:
  "i < length (find_rtf_starts rtf_data 0) \<Longrightarrow>
   rtf_documents codec rtf_data ! i = make_document codec rtf_data i (find_rtf_starts rtf_data 0 ! i)"
  by (simp add: rtf_documents_def nth_enumerate_eq)

text \<open>
  Claim C1.  For every RTF text and every hierarchy list: when the hierarchy list is not empty,
  assembly produces exactly one chapter per hierarchy entry, so the list built by the pairing
  loop is never empty and the call returns it without reaching the equal-split fallback; when
  the hierarchy list is empty, assembly produces exactly one chapter, titled with the fixed
  placeholder, at level 0, with start offset 0 and end offset the length of the RTF text.
\<close>

theorem split_chapters_count:
  "(items \<noteq> [] \<longrightarrow>
      pair_chapters (rtf_documents codec rtf_text) items \<noteq> [] \<and>
      complete_hierarchy_split_chapters codec rtf_text plain_text items =
        Inr (pair_chapters (rtf_documents codec rtf_text) items) \<and>
      split_chapters codec rtf_text items =
        Inr (pair_chapters (rtf_documents codec rtf_text) items) \<and>
      length (pair_chapters (rtf_documents codec rtf_text) items) = length items) \<and>
   (\<exists>c. split_chapters codec rtf_text [] = Inr [c] \<and>
        chapter_item.title c = main_text_title \<and> chapter_item.level c = Some 0 \<and>
        chapter_item.start_pos c = 0 \<and> chapter_item.end_pos c = length rtf_text)"
  by (simp add: split_chapters_paired complete_hierarchy_split_chapters_paired
        pair_chapters_Nil_iff length_pair_chapters)
     (simp add: split_chapters_def Let_def)

theorem split_chapters_count_witness:
  "[\<lparr>hierarchy_item.title = [65], level = 0\<rparr>] \<noteq> [] \<and>
   split_chapters (\<lambda>bs. []) [] [\<lparr>hierarchy_item.title = [65], level = 0\<rparr>] =
     Inr (pair_chapters (rtf_documents (\<lambda>bs. []) []) [\<lparr>hierarchy_item.title = [65], level = 0\<rparr>]) \<and>
   length (pair_chapters (rtf_documents (\<lambda>bs. []) []) [\<lparr>hierarchy_item.title = [65], level = 0\<rparr>]) = 1"
  using split_chapters_count[of "[\<lparr>hierarchy_item.title = [65], level = 0\<rparr>]" "\<lambda>bs. []" "[]" "[]"]
  by simp

lemma pair_chapter_document:
  "i < length docs \<Longrightarrow>
   pair_chapter docs i item =
     \<lparr>chapter_item.title = hierarchy_item.title item,
      content = plain_content (docs ! i),
      level = Some (hierarchy_item.level item),
      start_pos = rtf_document.start_pos (docs ! i),
      end_pos = rtf_document.end_pos (docs ! i),
      size' = length (plain_content (docs ! i)),
      rtf_index = Some (rtf_document.rtf_index (docs ! i))\<rparr>"
  by (simp add: pair_chapter_def Let_def)

lemma pair_chapter_placeholder:
  "length docs \<le> i \<Longrightarrow>
   pair_chapter docs i item =
     \<lparr>chapter_item.title = hierarchy_item.title item,
      content = no_content_message,
      level = Some (hierarchy_item.level item),
      start_pos = 0, end_pos = 0, size' = 0, rtf_index = Some (- 1)\<rparr>"
  by (simp add: pair_chapter_def)

text \<open>
  Claim C2.  For a hierarchy of length \<open>H > 0\<close> and an RTF text in which \<open>D\<close> documents are
  discovered, the assembled result has exactly \<open>H\<close> chapters.  For every \<open>i < min H D\<close>, chapter
  \<open>i\<close> takes title and level from hierarchy entry \<open>i\<close> and content, offsets and size from
  document \<open>i\<close>; its size is the length of the converted plain content and its source index is
  not the sentinel.  For every \<open>i\<close> with \<open>D \<le> i < H\<close>, chapter \<open>i\<close> is the placeholder: the fixed
  message, size 0, offsets 0 and source index \<open>-1\<close>.
\<close>

theorem pairing_positional:
  assumes "items \<noteq> []"
  shows "\<exists>chs. split_chapters codec rtf_text items = Inr chs \<and>
     length chs = length items \<and>
     (\<forall>i. i < min (length items) (length (rtf_documents codec rtf_text)) \<longrightarrow>
        chs ! i =
          \<lparr>chapter_item.title = hierarchy_item.title (items ! i),
           content = plain_content (rtf_documents codec rtf_text ! i),
           level = Some (hierarchy_item.level (items ! i)),
           start_pos = rtf_document.start_pos (rtf_documents codec rtf_text ! i),
           end_pos = rtf_document.end_pos (rtf_documents codec rtf_text ! i),
           size' = length (plain_content (rtf_documents codec rtf_text ! i)),
           rtf_index = Some (int i)\<rparr> \<and>
        chapter_item.size' (chs ! i) = length (chapter_item.content (chs ! i)) \<and>
        chapter_item.rtf_index (chs ! i) \<noteq> Some (- 1) \<and>
        rtf_documents codec rtf_text ! i =
          make_document codec rtf_text i (find_rtf_starts rtf_text 0 ! i)) \<and>
     (\<forall>i. length (rtf_documents codec rtf_text) \<le> i \<and> i < length items \<longrightarrow>
        chs ! i =
          \<lparr>chapter_item.title = hierarchy_item.title (items ! i),
           content = no_content_message,
           level = Some (hierarchy_item.level (items ! i)),
           start_pos = 0, end_pos = 0, size' = 0, rtf_index = Some (- 1)\<rparr>)"
proof -
  let ?docs = "rtf_documents codec rtf_text"
  let ?chs = "pair_chapters ?docs items"
  have eq: "split_chapters codec rtf_text items = Inr ?chs"
    using assms by (rule split_chapters_paired)
  have len: "length ?chs = length items" by (rule length_pair_chapters)
  have doc: "?chs ! i =
          \<lparr>chapter_item.title = hierarchy_item.title (items ! i),
           content = plain_content (?docs ! i),
           level = Some (hierarchy_item.level (items ! i)),
           start_pos = rtf_document.start_pos (?docs ! i),
           end_pos = rtf_document.end_pos (?docs ! i),
           size' = length (plain_content (?docs ! i)),
           rtf_index = Some (int i)\<rparr> \<and>
        chapter_item.size' (?chs ! i) = length (chapter_item.content (?chs ! i)) \<and>
        chapter_item.rtf_index (?chs ! i) \<noteq> Some (- 1) \<and>
        ?docs ! i = make_document codec rtf_text i (find_rtf_starts rtf_text 0 ! i)"
    if "i < min (length items) (length ?docs)" for i
  proof -
    from that have i1: "i < length items" and i2: "i < length ?docs" by simp_all
    from i2 have i3: "i < length (find_rtf_starts rtf_text 0)"
      by (simp add: length_rtf_documents)
    have d: "?docs ! i = make_document codec rtf_text i (find_rtf_starts rtf_text 0 ! i)"
      using i3 by (rule nth_rtf_documents)
    have idx: "rtf_document.rtf_index (?docs ! i) = int i"
      by (simp add: d make_document_def Let_def)
    have c: "?chs ! i = pair_chapter ?docs i (items ! i)"
      using i1 by (rule nth_pair_chapters)
    have "?chs ! i =
          \<lparr>chapter_item.title = hierarchy_item.title (items ! i),
           content = plain_content (?docs ! i),
           level = Some (hierarchy_item.level (items ! i)),
           start_pos = rtf_document.start_pos (?docs ! i),
           end_pos = rtf_document.end_pos (?docs ! i),
           size' = length (plain_content (?docs ! i)),
           rtf_index = Some (int i)\<rparr> \<and>
        chapter_item.size' (?chs ! i) = length (chapter_item.content (?chs ! i)) \<and>
        chapter_item.rtf_index (?chs ! i) \<noteq> Some (- 1)"
      by (simp add: c pair_chapter_document[OF i2] idx)
    with d show ?thesis by blast
  qed
  have ph: "?chs ! i =
          \<lparr>chapter_item.title = hierarchy_item.title (items ! i),
           content = no_content_message,
           level = Some (hierarchy_item.level (items ! i)),
           start_pos = 0, end_pos = 0, size' = 0, rtf_index = Some (- 1)\<rparr>"
    if "length ?docs \<le> i \<and> i < length items" for i
    using that by (simp add: nth_pair_chapters pair_chapter_placeholder)
  from eq len doc ph show ?thesis by blast
qed

theorem pairing_positional_witness:
  "[\<lparr>hierarchy_item.title = [65], level = 0\<rparr>, \<lparr>hierarchy_item.title = [66], level = 1\<rparr>] \<noteq> [] \<and>
   (0::nat) < min (length [\<lparr>hierarchy_item.title = [65], level = 0\<rparr>,
                           \<lparr>hierarchy_item.title = [66], level = 1\<rparr>])
                  (length (rtf_documents (\<lambda>bs. []) [123, 92, 114, 116, 102, 49, 125])) \<and>
   length (rtf_documents (\<lambda>bs. []) [123, 92, 114, 116, 102, 49, 125]) \<le> 1 \<and>
   (1::nat) < length [\<lparr>hierarchy_item.title = [65], level = 0\<rparr>,
                      \<lparr>hierarchy_item.title = [66], level = 1\<rparr>] \<and>
   (case split_chapters (\<lambda>bs. []) [123, 92, 114, 116, 102, 49, 125]
           [\<lparr>hierarchy_item.title = [65], level = 0\<rparr>, \<lparr>hierarchy_item.title = [66], level = 1\<rparr>]
    of Inr chs \<Rightarrow> map chapter_item.rtf_index chs | Inl e \<Rightarrow> []) = [Some 0, Some (- 1)]"
proof -
  let ?items = "[\<lparr>hierarchy_item.title = [65], level = 0\<rparr>, \<lparr>hierarchy_item.title = [66], level = 1\<rparr>]"
  let ?r = "[123, 92, 114, 116, 102, 49, 125] :: ustring"
  let ?c = "(\<lambda>bs. []) :: byte list \<Rightarrow> ustring"
  have D: "length (rtf_documents ?c ?r) = 1"
    by (simp add: length_rtf_documents find_rtf_starts.simps str_find_def startswith_def
          rtf_token_def)
  have ne: "?items \<noteq> []" by simp
  from pairing_positional[OF ne, of ?c ?r]
  obtain chs where eq: "split_chapters ?c ?r ?items = Inr chs"
    and len: "length chs = length ?items"
    and doc: "\<forall>i. i < min (length ?items) (length (rtf_documents ?c ?r)) \<longrightarrow>
        chapter_item.rtf_index (chs ! i) = Some (int i)"
    and ph: "\<forall>i. length (rtf_documents ?c ?r) \<le> i \<and> i < length ?items \<longrightarrow>
        chapter_item.rtf_index (chs ! i) = Some (- 1)"
    by fastforce
  from doc D have i0: "chapter_item.rtf_index (chs ! 0) = Some 0" by simp
  from ph D have i1: "chapter_item.rtf_index (chs ! 1) = Some (- 1)" by simp
  from len obtain x y where xy: "chs = [x, y]"
    by (cases chs; cases "tl chs") auto
  from i0 i1 xy have "map chapter_item.rtf_index chs = [Some 0, Some (- 1)]" by simp
  with eq D show ?thesis by simp
qed

section \<open>Extraction of a document by brace counting\<close>

lemma brace_scan_Some:
  "1 \<le> c \<Longrightarrow> brace_scan cs c pos = Some p \<Longrightarrow>
   \<exists>n<length cs. p = pos + n \<and> c + balance (take (Suc n) cs) = 0 \<and>
      (\<forall>m<n. c + balance (take (Suc m) cs) \<noteq> 0)"
proof (induction cs arbitrary: c pos)
  case Nil
  then show ?case by simp
next
  case (Cons x xs)
  show ?case
  proof (cases "x = 125 \<and> c = 1")
    case True
    with Cons.prems have "p = pos" by simp
    with True show ?thesis by (intro exI[of _ 0]) simp
  next
    case False
    define c' where "c' = c + (if x = 123 then 1 else if x = 125 then - 1 else 0)"
    from False Cons.prems have c1: "1 \<le> c'" by (auto simp: c'_def)
    from False Cons.prems have "brace_scan xs c' (pos + 1) = Some p"
      by (auto simp: c'_def split: if_splits)
    from Cons.IH[OF c1 this] obtain n where n: "n < length xs" "p = pos + 1 + n"
      "c' + balance (take (Suc n) xs) = 0" "\<forall>m<n. c' + balance (take (Suc m) xs) \<noteq> 0"
      by blast
    have step: "c + balance (take (Suc (Suc m)) (x # xs)) = c' + balance (take (Suc m) xs)" for m
      by (simp add: c'_def)
    have z: "c + balance (take (Suc 0) (x # xs)) = c'" by (simp add: c'_def)
    have "\<forall>m<Suc n. c + balance (take (Suc m) (x # xs)) \<noteq> 0"
    proof (intro allI impI)
      fix m assume m: "m < Suc n"
      show "c + balance (take (Suc m) (x # xs)) \<noteq> 0"
      proof (cases m)
        case 0
        with z c1 show ?thesis by simp
      next
        case (Suc k)
        with m have "k < n" by simp
        with n(4) have "c' + balance (take (Suc k) xs) \<noteq> 0" by simp
        then show ?thesis unfolding Suc step .
      qed
    qed
    with n step[of n] show ?thesis by (intro exI[of _ "Suc n"]) simp
  qed
qed

lemma brace_scan_None:
  "1 \<le> c \<Longrightarrow> brace_scan cs c pos = None \<Longrightarrow>
   \<forall>n<length cs. c + balance (take (Suc n) cs) \<noteq> 0"
proof (induction cs arbitrary: c pos)
  case Nil
  then show ?case by simp
next
  case (Cons x xs)
  define c' where "c' = c + (if x = 123 then 1 else if x = 125 then - 1 else 0)"
  from Cons.prems have c1: "1 \<le> c'" by (auto simp: c'_def split: if_splits)
  from Cons.prems have "brace_scan xs c' (pos + 1) = None"
    by (auto simp: c'_def split: if_splits)
  from Cons.IH[OF c1 this] have ih: "\<forall>n<length xs. c' + balance (take (Suc n) xs) \<noteq> 0" .
  show ?case
  proof (intro allI impI)
    fix n assume n: "n < length (x # xs)"
    show "c + balance (take (Suc n) (x # xs)) \<noteq> 0"
    proof (cases n)
      case 0
      with c1 show ?thesis by (simp add: c'_def)
    next
      case (Suc k)
      with n ih have "c' + balance (take (Suc k) xs) \<noteq> 0" by simp
      with Suc show ?thesis by (simp add: c'_def)
    qed
  qed
qed

lemma occurs_at_rtf_token_Cons:
  "occurs_at rtf_token s start \<Longrightarrow> \<exists>rest. drop start s = 123 # rest \<and> start < length s"
  by (cases "drop start s") (auto simp: occurs_at_def startswith_def rtf_token_def)

lemma returns_to_zero_Cons:
  assumes "drop start s = 123 # rest"
  shows "returns_to_zero s start (start + Suc n) \<longleftrightarrow>
           n < length rest \<and> 1 + balance (take (Suc n) rest) = 0"
    and "\<not> returns_to_zero s start start"
proof -
  have len: "length s = start + Suc (length rest)"
    using assms by (metis add_diff_cancel_left' le_add_diff_inverse length_Cons length_drop 
        linorder_not_less list.distinct(1) drop_all nat_le_linear)
  show "returns_to_zero s start (start + Suc n) \<longleftrightarrow>
           n < length rest \<and> 1 + balance (take (Suc n) rest) = 0"
    using assms len by (simp add: returns_to_zero_def slice_def)
  show "\<not> returns_to_zero s start start"
    using assms by (simp add: returns_to_zero_def slice_def)
qed

lemma extract_complete_rtf_cases:
  assumes occ: "occurs_at rtf_token s start"
  shows "(\<exists>p. returns_to_zero s start p \<and> (\<forall>q<p. \<not> returns_to_zero s start q) \<and>
              extract_complete_rtf s start = slice s start (p + 1)) \<or>
         ((\<forall>p. \<not> returns_to_zero s start p) \<and> extract_complete_rtf s start = drop start s)"
proof -
  from occurs_at_rtf_token_Cons[OF occ] obtain rest where
    d: "drop start s = 123 # rest" and lt: "start < length s" by blast
  have sw: "startswith (drop start s) rtf_token"
    using occ by (simp add: occurs_at_def)
  have ex: "extract_complete_rtf s start =
      (case brace_scan rest 1 (start + 1) of
         Some pos \<Rightarrow> slice s start (pos + 1) | None \<Rightarrow> drop start s)"
    using lt sw d by (simp add: extract_complete_rtf_def)
  note rz = returns_to_zero_Cons[OF d]
  have notbefore: "\<not> returns_to_zero s start q" if "q < start" for q
    using that by (simp add: returns_to_zero_def)
  show ?thesis
  proof (cases "brace_scan rest 1 (start + 1)")
    case None
    from brace_scan_None[OF _ None]
    have nz: "\<forall>n<length rest. 1 + balance (take (Suc n) rest) \<noteq> 0" by simp
    have "\<not> returns_to_zero s start p" for p
    proof (cases "p \<le> start")
      case True
      then show ?thesis using rz(2) notbefore[of p] by (cases "p = start") auto
    next
      case False
      then obtain n where "p = start + Suc n" by (metis add_Suc_right less_imp_Suc_add not_le)
      with nz rz(1)[of n] show ?thesis by auto
    qed
    with None ex show ?thesis by simp
  next
    case (Some p)
    from brace_scan_Some[OF _ Some] obtain n where n: "n < length rest" "p = start + 1 + n"
      "1 + balance (take (Suc n) rest) = 0" "\<forall>m<n. 1 + balance (take (Suc m) rest) \<noteq> 0"
      by auto
    from n have p: "p = start + Suc n" by simp
    from n rz(1)[of n] p have r: "returns_to_zero s start p" by simp
    have "\<not> returns_to_zero s start q" if q: "q < p" for q
    proof (cases "q \<le> start")
      case True
      then show ?thesis using rz(2) notbefore[of q] by (cases "q = start") auto
    next
      case False
      then obtain m where m: "q = start + Suc m" by (metis add_Suc_right less_imp_Suc_add not_le)
      with q p have "m < n" by simp
      with n(4) rz(1)[of m] m show ?thesis by auto
    qed
    with r Some ex show ?thesis by auto
  qed
qed

text \<open>
  Claim C5.  For every RTF text and every start offset at an occurrence of the token \<open>{\rtf\<close>,
  the extracted document is the substring from the start offset through the first position
  where the running brace count, counted from the start offset, returns to 0, that closing
  brace included; if the text ends before the count returns to 0, the extracted document is
  the remainder of the text from the start offset.  For the text
  \<open>{\rtf1 text {nested} more}\<close> the extracted document is the entire text.
\<close>

theorem extract_complete_rtf_balanced:
  "(occurs_at rtf_token s start \<longrightarrow>
      ((\<exists>p. returns_to_zero s start p) \<longrightarrow>
         (\<exists>p. returns_to_zero s start p \<and> (\<forall>q<p. \<not> returns_to_zero s start q) \<and>
              extract_complete_rtf s start = slice s start (p + 1))) \<and>
      ((\<forall>p. \<not> returns_to_zero s start p) \<longrightarrow> extract_complete_rtf s start = drop start s)) \<and>
   extract_complete_rtf
     [123, 92, 114, 116, 102, 49, 32, 116, 101, 120, 116, 32, 123, 110, 101, 115, 116, 101,
      100, 125, 32, 109, 111, 114, 101, 125] 0 =
     [123, 92, 114, 116, 102, 49, 32, 116, 101, 120, 116, 32, 123, 110, 101, 115, 116, 101,
      100, 125, 32, 109, 111, 114, 101, 125]"
proof -
  have "extract_complete_rtf
     [123, 92, 114, 116, 102, 49, 32, 116, 101, 120, 116, 32, 123, 110, 101, 115, 116, 101,
      100, 125, 32, 109, 111, 114, 101, 125] 0 =
     [123, 92, 114, 116, 102, 49, 32, 116, 101, 120, 116, 32, 123, 110, 101, 115, 116, 101,
      100, 125, 32, 109, 111, 114, 101, 125]"
    by (simp add: extract_complete_rtf_def startswith_def rtf_token_def slice_def)
  moreover have "occurs_at rtf_token s start \<longrightarrow>
      ((\<exists>p. returns_to_zero s start p) \<longrightarrow>
         (\<exists>p. returns_to_zero s start p \<and> (\<forall>q<p. \<not> returns_to_zero s start q) \<and>
              extract_complete_rtf s start = slice s start (p + 1))) \<and>
      ((\<forall>p. \<not> returns_to_zero s start p) \<longrightarrow> extract_complete_rtf s start = drop start s)"
    using extract_complete_rtf_cases[of s start] by blast
  ultimately show ?thesis by blast
qed

theorem extract_complete_rtf_balanced_witness:
  "occurs_at rtf_token [65, 123, 92, 114, 116, 102, 123, 125, 125, 66] 1 \<and>
   returns_to_zero [65, 123, 92, 114, 116, 102, 123, 125, 125, 66] 1 8 \<and>
   extract_complete_rtf [65, 123, 92, 114, 116, 102, 123, 125, 125, 66] 1 =
     [123, 92, 114, 116, 102, 123, 125, 125] \<and>
   occurs_at rtf_token [123, 92, 114, 116, 102, 123, 125] 0 \<and>
   (\<forall>p. \<not> returns_to_zero [123, 92, 114, 116, 102, 123, 125] 0 p) \<and>
   extract_complete_rtf [123, 92, 114, 116, 102, 123, 125] 0 = [123, 92, 114, 116, 102, 123, 125]"
proof -
  let ?s = "[65, 123, 92, 114, 116, 102, 123, 125, 125, 66] :: ustring"
  let ?u = "[123, 92, 114, 116, 102, 123, 125] :: ustring"
  have o1: "occurs_at rtf_token ?s 1" by (simp add: occurs_at_def startswith_def rtf_token_def)
  have o2: "occurs_at rtf_token ?u 0" by (simp add: occurs_at_def startswith_def rtf_token_def)
  have r1: "returns_to_zero ?s 1 8" by (simp add: returns_to_zero_def slice_def)
  have e1: "extract_complete_rtf ?s 1 = [123, 92, 114, 116, 102, 123, 125, 125]"
    by (simp add: extract_complete_rtf_def startswith_def rtf_token_def slice_def)
  have n2: "\<not> returns_to_zero ?u 0 p" for p
  proof -
    have "p < 7 \<Longrightarrow> p \<in> {0, 1, 2, 3, 4, 5, 6}" by auto
    then show ?thesis
      by (auto simp: returns_to_zero_def slice_def)
  qed
  from extract_complete_rtf_balanced[of ?u 0] o2 n2
  have e2: "extract_complete_rtf ?u 0 = drop 0 ?u" by blast
  from extract_complete_rtf_balanced[of ?s 1] o1 r1
  have "\<exists>p. extract_complete_rtf ?s 1 = slice ?s 1 (p + 1)" by blast
  with o1 o2 r1 e1 e2 n2 show ?thesis by simp
qed

section \<open>The split loses no character\<close>

text \<open>
  Claim C8.  For every decoded text \<open>t\<close> the two parts returned by the section splitter
  concatenate to \<open>t\<close>.  When the token \<open>{\rtf\<close> occurs in \<open>t\<close>, the plain part is the prefix
  strictly before the first occurrence and the RTF part is everything from that occurrence
  onward; when the token does not occur, the plain part is \<open>t\<close> and the RTF part is empty.
\<close>

theorem split_plain_rtf_partition:
  "fst (split_plain_rtf t) @ snd (split_plain_rtf t) = t \<and>
   ((\<exists>i. occurs_at rtf_token t i) \<longrightarrow>
      (\<exists>i. occurs_at rtf_token t i \<and> (\<forall>j < i. \<not> occurs_at rtf_token t j) \<and>
           split_plain_rtf t = (take i t, drop i t))) \<and>
   ((\<forall>i. \<not> occurs_at rtf_token t i) \<longrightarrow> split_plain_rtf t = (t, []))"
proof (cases "str_find t rtf_token 0")
  case None
  then have "\<forall>j. \<not> occurs_at rtf_token t j" by (simp add: str_find_None_iff)
  with None show ?thesis by (simp add: split_plain_rtf_def)
next
  case (Some p)
  then have "occurs_at rtf_token t p \<and> (\<forall>j < p. \<not> occurs_at rtf_token t j)"
    by (simp add: str_find_Some_iff)
  with Some show ?thesis by (auto simp: split_plain_rtf_def)
qed

theorem split_plain_rtf_partition_witness:
  "(\<exists>i. occurs_at rtf_token [65, 10, 123, 92, 114, 116, 102, 49, 125] i) \<and>
   split_plain_rtf [65, 10, 123, 92, 114, 116, 102, 49, 125] =
     ([65, 10], [123, 92, 114, 116, 102, 49, 125]) \<and>
   (\<forall>i. \<not> occurs_at rtf_token [65, 10] i) \<and> split_plain_rtf [65, 10] = ([65, 10], [])"
proof -
  have occ: "occurs_at rtf_token [65, 10, 123, 92, 114, 116, 102, 49, 125] 2"
    by (simp add: occurs_at_def startswith_def rtf_token_def)
  have nocc: "\<forall>i. \<not> occurs_at rtf_token [65, 10] i"
    by (simp add: occurs_at_def rtf_token_def)
  from occ have ex: "\<exists>i. occurs_at rtf_token [65, 10, 123, 92, 114, 116, 102, 49, 125] i" ..
  have s1: "split_plain_rtf [65, 10, 123, 92, 114, 116, 102, 49, 125] =
     ([65, 10], [123, 92, 114, 116, 102, 49, 125])"
    by (simp add: split_plain_rtf_def str_find_def startswith_def rtf_token_def)
  from split_plain_rtf_partition[of "[65, 10]"] nocc
  have s2: "split_plain_rtf [65, 10] = ([65, 10], [])" by blast
  from split_plain_rtf_partition[of "[65, 10, 123, 92, 114, 116, 102, 49, 125]"] ex
  have "\<exists>i. split_plain_rtf [65, 10, 123, 92, 114, 116, 102, 49, 125] =
     (take i [65, 10, 123, 92, 114, 116, 102, 49, 125], drop i [65, 10, 123, 92, 114, 116, 102, 49, 125])"
    by blast
  with ex s1 s2 nocc show ?thesis by blast
qed

end
